theory Spec2Isabelle
  imports Main
begin

section \<open>Strings\<close>

text \<open>
  A Python \<open>str\<close> is a sequence of Unicode code points, so it is modelled as a list of
  natural numbers (the script prints U+25B6, which is no 8-bit character).
  \<open>str\<close> turns an ASCII literal into such a list.
\<close>

type_synonym pystr = "nat list"

definition str :: "string \<Rightarrow> pystr" where
  "str s = map of_char s"

text \<open>
  \<open>str.isspace\<close> of one code point: the table of CPython's
  \<open>_PyUnicode_IsWhitespace\<close>.
\<close>

definition isspace :: "nat \<Rightarrow> bool" where
  "isspace c \<longleftrightarrow>
     (9 \<le> c \<and> c \<le> 13) \<or> (28 \<le> c \<and> c \<le> 32) \<or> c = 133 \<or> c = 160 \<or> c = 5760 \<or>
     (8192 \<le> c \<and> c \<le> 8202) \<or> c = 8232 \<or> c = 8233 \<or> c = 8239 \<or> c = 8287 \<or> c = 12288"

text \<open>\<open>line.rstrip()\<close> with no argument: every trailing whitespace character goes.\<close>

definition rstrip :: "pystr \<Rightarrow> pystr" where
  "rstrip s = rev (dropWhile isspace (rev s))"

text \<open>The decimal rendering of an integer inside an f-string.\<close>

fun digits :: "nat \<Rightarrow> pystr" where
  "digits n = (if n < 10 then [48 + n] else digits (n div 10) @ [48 + n mod 10])"

definition str_of_int :: "int \<Rightarrow> pystr" where
  "str_of_int i = (if i < 0 then 45 # digits (nat (- i)) else digits (nat i))"

text \<open>
  \<open>PS_OVERRIDE\<close>, the raw triple-quoted literal of lines 23 to 33: it opens with a
  newline and closes with one. Code point 92 is the backslash, 34 the double quote.
\<close>

definition PS_OVERRIDE :: pystr where
  "PS_OVERRIDE =
     [10] @
     str ''# Redirect Read-Host to stdin pipe'' @ [10] @
     str ''if (Get-Command Read-Host -ErrorAction SilentlyContinue) {'' @ [10] @
     str ''    Remove-Item Function:'' @ [92] @
       str ''Read-Host -ErrorAction SilentlyContinue'' @ [10] @
     str ''}'' @ [10] @
     str ''function Read-Host {'' @ [10] @
     str ''    param([string]$prompt='' @ [34, 34] @ str '')'' @ [10] @
     str ''    Write-Host $prompt -NoNewline'' @ [10] @
     str ''    return [Console]::In.ReadLine()'' @ [10] @
     str ''}'' @ [10]"

section \<open>Widgets\<close>

datatype wstate = Normal | Disabled

text \<open>
  The output console is a Tk text widget: its state and its content. Tk ignores an
  insertion into a widget whose state is \<open>disabled\<close>.
\<close>

record text_widget =
  tw_state :: wstate
  tw_text :: pystr

definition configure_state :: "wstate \<Rightarrow> text_widget \<Rightarrow> text_widget" where
  "configure_state st tw = tw\<lparr>tw_state := st\<rparr>"

definition insert_end :: "pystr \<Rightarrow> text_widget \<Rightarrow> text_widget" where
  "insert_end s tw = (if tw_state tw = Normal then tw\<lparr>tw_text := tw_text tw @ s\<rparr> else tw)"

text \<open>
  \<open>write_log\<close> (lines 37 to 41): enable, insert the message and a newline at the end,
  scroll to the end (no effect on the content), disable.
\<close>

definition write_log :: "text_widget \<Rightarrow> pystr \<Rightarrow> text_widget" where
  "write_log txt_widget message =
     configure_state Disabled (insert_end (message @ [10]) (configure_state Normal txt_widget))"

section \<open>Processes, files, reader threads\<close>

datatype stdio = PIPE | STDOUT | Inherited

text \<open>
  A child process as \<open>subprocess.Popen\<close> sees it. \<open>returncode\<close> is what \<open>poll()\<close>
  answers: \<open>None\<close> while the process runs. \<open>stdin_buffer\<close> holds what
  \<open>stdin.write\<close> has taken and \<open>flush\<close> has not yet handed over, \<open>stdin_pipe\<close>
  what the process has been handed, as the text that was written (the stream encodes
  it and renders the newline as the platform does); \<open>stdin_broken\<close> carries the
  message of the error that a flush meets once the pipe is broken. The pipes are text streams
  (\<open>text=True\<close>) in the encoding of the locale, with strict error handling:
  \<open>stdin_encode_error\<close> gives, for a text that has a character without a code in
  that encoding, the message of the \<open>UnicodeEncodeError\<close>, and \<open>None\<close> for a text
  that can be encoded. \<open>stdout_pipe\<close> holds the lines the process has written and
  nobody has read yet, oldest first; \<open>stdout_undecodable\<close> is set, to the message of
  the \<open>UnicodeDecodeError\<close>, once the next read of the output meets bytes that are
  no text in that encoding.
\<close>

record proc =
  argv :: "pystr list"
  p_stdin :: stdio
  p_stdout :: stdio
  p_stderr :: stdio
  text_mode :: bool
  returncode :: "int option"
  stdin_buffer :: pystr
  stdin_pipe :: pystr
  stdin_broken :: "pystr option"
  stdin_encode_error :: "pystr \<Rightarrow> pystr option"
  stdout_pipe :: "pystr list"
  stdout_undecodable :: "pystr option"

text \<open>
  The nested function \<open>reader\<close> runs in a thread of its own, so it is modelled
  statement by statement: \<open>r_pc\<close> says where the thread stands, \<open>r_tmp\<close> is the
  \<open>tmp\<close> of the enclosing call. \<open>current_proc\<close> is a global: the thread reads it
  when it reaches line 100 and again when it reaches line 102.
\<close>

datatype pc =
    At_for
  | In_loop nat
  | At_wait
  | Waiting nat
  | At_remove int
  | At_log int
  | At_reset
  | Finished
  | Died pystr

record reader =
  r_pc :: pc
  r_tmp :: nat

text \<open>
  The module's globals and the part of the operating system they touch. Processes are
  numbered in the order of their creation and a \<open>Popen\<close> object is such a number.
  Temporary files are numbered too: \<open>NamedTemporaryFile\<close> never hands out an existing
  name, and \<open>tmp_name\<close> renders the number as a path. \<open>os_removed\<close> records the
  successful calls of \<open>os.remove\<close>.
\<close>

record world =
  current_proc :: "nat option"
  procs :: "proc list"
  files :: "nat \<rightharpoonup> pystr"
  next_file :: nat
  os_removed :: "nat list"
  threads :: "reader list"
  script_buttons :: "wstate list"
  stop_btn :: wstate
  status_label :: pystr
  output_box :: text_widget
  input_entry :: pystr

definition tmp_name :: "nat \<Rightarrow> pystr" where
  "tmp_name f = str ''tmp'' @ digits f @ str ''.ps1''"

text \<open>A Python call returns, or raises an exception (here: its message).\<close>

datatype outcome = Returned | Raised pystr

text \<open>\<open>write_log(output_box, message)\<close>.\<close>

definition log_line :: "pystr \<Rightarrow> world \<Rightarrow> world" where
  "log_line message w = w\<lparr>output_box := write_log (output_box w) message\<rparr>"

definition poll :: "world \<Rightarrow> nat \<Rightarrow> int option" where
  "poll w p = returncode (procs w ! p)"

text \<open>
  \<open>Popen.kill()\<close>: the process ends at once. On Windows, where \<open>powershell.exe\<close>
  lives, it ends with exit code 1; a process that has ended keeps its code.
\<close>

definition kill_proc :: "proc \<Rightarrow> proc" where
  "kill_proc p = (if returncode p = None then p\<lparr>returncode := Some 1\<rparr> else p)"

definition kill :: "nat \<Rightarrow> world \<Rightarrow> world" where
  "kill p w = w\<lparr>procs := (procs w)[p := kill_proc (procs w ! p)]\<rparr>"

section \<open>The functions of the module\<close>

text \<open>\<open>reset_ui\<close> (lines 62 to 66).\<close>

definition reset_ui :: "world \<Rightarrow> world" where
  "reset_ui w =
     w\<lparr>script_buttons := map (\<lambda>btn. Normal) (script_buttons w),
       stop_btn := Disabled,
       status_label := str ''Ready''\<rparr>"

text \<open>\<open>stop_process\<close> (lines 43 to 48).\<close>

definition stop_process :: "world \<Rightarrow> world" where
  "stop_process w =
     (case current_proc w of
        None \<Rightarrow> w
      | Some p \<Rightarrow>
          if poll w p = None
          then reset_ui (log_line (str ''[Stopped]'') (kill p w))
          else w)"

text \<open>
  \<open>stdin.write\<close> encodes the text and appends it to the buffer of the stream, or
  raises when the text cannot be encoded (the buffer gets nothing); \<open>stdin.flush\<close>
  hands the buffer to the pipe, or raises when the pipe is broken (the buffer keeps its
  content).
\<close>

definition stdin_write :: "nat \<Rightarrow> pystr \<Rightarrow> world \<Rightarrow> pystr + world" where
  "stdin_write p s w =
     (case stdin_encode_error (procs w ! p) s of
        Some e \<Rightarrow> Inl e
      | None \<Rightarrow>
          Inr (w\<lparr>procs := (procs w)[p := (procs w ! p)
                  \<lparr>stdin_buffer := stdin_buffer (procs w ! p) @ s\<rparr>]\<rparr>))"

definition stdin_flush :: "nat \<Rightarrow> world \<Rightarrow> pystr + world" where
  "stdin_flush p w =
     (case stdin_broken (procs w ! p) of
        Some e \<Rightarrow> Inl e
      | None \<Rightarrow>
          Inr (w\<lparr>procs := (procs w)[p := (procs w ! p)
                  \<lparr>stdin_pipe := stdin_pipe (procs w ! p) @ stdin_buffer (procs w ! p),
                   stdin_buffer := []\<rparr>]\<rparr>))"

text \<open>
  \<open>send_input\<close> (lines 50 to 60). The \<open>except\<close> clause takes every exception of the
  \<open>try\<close> block, so the call always returns.
\<close>

definition send_input :: "world \<Rightarrow> outcome \<times> world" where
  "send_input w =
     (let text = input_entry w;
          w1 = (case current_proc w of
                  None \<Rightarrow> w
                | Some p \<Rightarrow>
                    if poll w p = None
                    then (case stdin_write p (text @ [10]) w of
                            Inl e \<Rightarrow> log_line (str ''[Send error] '' @ e) w
                          | Inr w2 \<Rightarrow>
                              (case stdin_flush p w2 of
                                 Inl e \<Rightarrow> log_line (str ''[Send error] '' @ e) w2
                               | Inr w3 \<Rightarrow> log_line (str ''> '' @ text) w3))
                    else w)
      in (Returned, w1\<lparr>input_entry := []\<rparr>))"

section \<open>Starting a script\<close>

text \<open>
  What the surroundings answer to one call of \<open>run_script\<close>: the network
  (\<open>requests.get\<close> raises, \<open>Inl\<close> with the message, or returns a response), the
  file system (creating the temporary file or writing to it may raise), the process
  table (\<open>Popen\<close> raises when \<open>powershell.exe\<close> cannot be started) and the
  encoding of the locale, which the pipes of a new process use.
\<close>

record response =
  status_code :: int
  reason :: pystr
  resp_url :: pystr
  resp_text :: pystr

record env =
  http_get :: "pystr \<Rightarrow> pystr + response"
  mkstemp_error :: "pystr option"
  write_error :: "pystr option"
  popen_error :: "pystr option"
  locale_encode_error :: "pystr \<Rightarrow> pystr option"

text \<open>\<open>Response.raise_for_status\<close> of the requests library: statuses 400 to 599 raise.\<close>

definition raise_for_status :: "response \<Rightarrow> pystr + unit" where
  "raise_for_status r =
     (if 400 \<le> status_code r \<and> status_code r < 500
      then Inl (str_of_int (status_code r) @ str '' Client Error: '' @ reason r @
                str '' for url: '' @ resp_url r)
      else if 500 \<le> status_code r \<and> status_code r < 600
      then Inl (str_of_int (status_code r) @ str '' Server Error: '' @ reason r @
                str '' for url: '' @ resp_url r)
      else Inr ())"

text \<open>
  \<open>tempfile.NamedTemporaryFile(delete=False, suffix='.ps1', mode='w', ...)\<close>: a new,
  empty file under a name that does not exist. \<open>tmp.write\<close> followed by \<open>tmp.close\<close>
  stores the content; a failing write leaves the file as it was created.
\<close>

definition NamedTemporaryFile :: "env \<Rightarrow> world \<Rightarrow> pystr + (nat \<times> world)" where
  "NamedTemporaryFile e w =
     (case mkstemp_error e of
        Some m \<Rightarrow> Inl m
      | None \<Rightarrow>
          Inr (next_file w,
               w\<lparr>files := (files w)(next_file w \<mapsto> []), next_file := Suc (next_file w)\<rparr>))"

definition tmp_write :: "env \<Rightarrow> nat \<Rightarrow> pystr \<Rightarrow> world \<Rightarrow> pystr + world" where
  "tmp_write e tmp content w =
     (case write_error e of
        Some m \<Rightarrow> Inl m
      | None \<Rightarrow> Inr (w\<lparr>files := (files w)(tmp \<mapsto> content)\<rparr>))"

text \<open>
  \<open>subprocess.Popen(args, stdout=PIPE, stderr=STDOUT, stdin=PIPE, text=True)\<close>:
  the new process is the next one of the table.
\<close>

definition Popen :: "env \<Rightarrow> pystr list \<Rightarrow> world \<Rightarrow> pystr + (nat \<times> world)" where
  "Popen e args w =
     (case popen_error e of
        Some m \<Rightarrow> Inl m
      | None \<Rightarrow>
          Inr (length (procs w),
               w\<lparr>procs := procs w @
                   [\<lparr>argv = args, p_stdin = PIPE, p_stdout = PIPE, p_stderr = STDOUT,
                     text_mode = True, returncode = None, stdin_buffer = [],
                     stdin_pipe = [], stdin_broken = None,
                     stdin_encode_error = locale_encode_error e,
                     stdout_pipe = [], stdout_undecodable = None\<rparr>]\<rparr>))"

text \<open>\<open>threading.Thread(target=reader, daemon=True).start()\<close>.\<close>

definition start_reader :: "nat \<Rightarrow> world \<Rightarrow> world" where
  "start_reader tmp w = w\<lparr>threads := threads w @ [\<lparr>r_pc = At_for, r_tmp = tmp\<rparr>]\<rparr>"

text \<open>
  The \<open>try\<close> block of \<open>run_script\<close> (lines 79 to 86): \<open>Inl\<close> is the exception that the
  \<open>except\<close> clause takes, with the state at the raise; \<open>Inr\<close> is \<open>tmp\<close>.
\<close>

definition download :: "env \<Rightarrow> pystr \<Rightarrow> world \<Rightarrow> (pystr \<times> world) + (nat \<times> world)" where
  "download e url w =
     (case http_get e url of
        Inl m \<Rightarrow> Inl (m, w)
      | Inr resp \<Rightarrow>
          (case raise_for_status resp of
             Inl m \<Rightarrow> Inl (m, w)
           | Inr u \<Rightarrow>
               (let script_content = PS_OVERRIDE @ [10] @ resp_text resp in
                case NamedTemporaryFile e w of
                  Inl m \<Rightarrow> Inl (m, w)
                | Inr (tmp, w1) \<Rightarrow>
                    (case tmp_write e tmp script_content w1 of
                       Inl m \<Rightarrow> Inl (m, w1)
                     | Inr w2 \<Rightarrow>
                         Inr (tmp, log_line (str ''Saved to '' @ tmp_name tmp) w2)))))"

text \<open>
  \<open>run_script\<close> (lines 68 to 106). Code point 9654 is U+25B6, the triangle of the
  first log line. \<open>Popen\<close> stands outside the \<open>try\<close>: what it raises leaves the function.
\<close>

definition run_script :: "env \<Rightarrow> pystr \<Rightarrow> pystr \<Rightarrow> world \<Rightarrow> outcome \<times> world" where
  "run_script e url desc w =
     (let w1 = w\<lparr>script_buttons := map (\<lambda>btn. Disabled) (script_buttons w),
                 stop_btn := Normal,
                 status_label := str ''Running: '' @ desc\<rparr>;
          w2 = log_line ([62, 9654, 32] @ desc) w1;
          w3 = log_line (str ''Downloading from '' @ url) w2
      in case download e url w3 of
           Inl (m, w4) \<Rightarrow> (Returned, reset_ui (log_line (str ''[Download error] '' @ m) w4))
         | Inr (tmp, w4) \<Rightarrow>
             (case Popen e [str ''powershell.exe'', str ''-NoProfile'', str ''-ExecutionPolicy'',
                            str ''Bypass'', str ''-File'', tmp_name tmp] w4 of
                Inl m \<Rightarrow> (Raised m, w4)
              | Inr (p, w5) \<Rightarrow> (Returned, start_reader tmp (w5\<lparr>current_proc := Some p\<rparr>))))"

section \<open>The reader thread\<close>

definition set_pc :: "nat \<Rightarrow> pc \<Rightarrow> world \<Rightarrow> world" where
  "set_pc t c w = w\<lparr>threads := (threads w)[t := (threads w ! t)\<lparr>r_pc := c\<rparr>]\<rparr>"

text \<open>\<open>os.remove\<close> raises when the file does not exist.\<close>

definition os_remove :: "nat \<Rightarrow> world \<Rightarrow> pystr + world" where
  "os_remove f w =
     (case files w f of
        None \<Rightarrow> Inl (str ''[Errno 2] No such file or directory: '' @ tmp_name f)
      | Some c \<Rightarrow> Inr (w\<lparr>files := (files w)(f := None), os_removed := os_removed w @ [f]\<rparr>))"

text \<open>The body of the loop (line 101) for one line of the stream.\<close>

definition forward_line :: "pystr \<Rightarrow> world \<Rightarrow> world" where
  "forward_line line w = log_line (rstrip line) w"

text \<open>
  One step of reader thread \<open>t\<close> (lines 99 to 105). The iteration of line 100
  raises when the output of the process does not decode; otherwise it takes the oldest
  line of the pipe and hands it to the body; it ends when the pipe is empty and the
  process has ended, and blocks (the step changes nothing) when the pipe is empty and
  the process runs. \<open>wait()\<close> blocks until the process has ended. Nothing in
  \<open>reader\<close> catches an exception: it ends the thread where it is raised.
\<close>

definition reader_step :: "nat \<Rightarrow> world \<Rightarrow> world" where
  "reader_step t w =
     (if t < length (threads w) then
        (case r_pc (threads w ! t) of
           At_for \<Rightarrow>
             (case current_proc w of
                None \<Rightarrow> set_pc t (Died (str ''NoneType object has no attribute stdout'')) w
              | Some p \<Rightarrow> set_pc t (In_loop p) w)
         | In_loop p \<Rightarrow>
             (case stdout_undecodable (procs w ! p) of
                Some m \<Rightarrow> set_pc t (Died m) w
              | None \<Rightarrow>
                  (case stdout_pipe (procs w ! p) of
                     line # rest \<Rightarrow>
                       forward_line line
                         (w\<lparr>procs := (procs w)[p := (procs w ! p)\<lparr>stdout_pipe := rest\<rparr>]\<rparr>)
                   | [] \<Rightarrow>
                       if returncode (procs w ! p) = None then w else set_pc t At_wait w))
         | At_wait \<Rightarrow>
             (case current_proc w of
                None \<Rightarrow> set_pc t (Died (str ''NoneType object has no attribute wait'')) w
              | Some q \<Rightarrow> set_pc t (Waiting q) w)
         | Waiting q \<Rightarrow>
             (case returncode (procs w ! q) of
                None \<Rightarrow> w
              | Some code \<Rightarrow> set_pc t (At_remove code) w)
         | At_remove code \<Rightarrow>
             (case os_remove (r_tmp (threads w ! t)) w of
                Inl m \<Rightarrow> set_pc t (Died m) w
              | Inr w1 \<Rightarrow> set_pc t (At_log code) w1)
         | At_log code \<Rightarrow>
             set_pc t At_reset
               (log_line (str ''[Completed] Exit code: '' @ str_of_int code) w)
         | At_reset \<Rightarrow> set_pc t Finished (reset_ui w)
         | Finished \<Rightarrow> w
         | Died m \<Rightarrow> w)
      else w)"

section \<open>Runs of the whole program\<close>

text \<open>
  What can happen next: a callback of the user interface runs (to its end: Tk runs
  callbacks one at a time, and an exception that leaves a callback is reported by Tk,
  which goes on), the user edits the entry field, a process writes a line, ends or
  closes its input, the output of a process turns out not to decode, or a reader
  thread takes one step.
\<close>

datatype event =
    Call_run_script env pystr pystr
  | Call_stop_process
  | Call_send_input
  | Edit_entry pystr
  | Proc_writes nat pystr
  | Proc_ends nat int
  | Stdin_breaks nat pystr
  | Stdout_garbled nat pystr
  | Reader_runs nat

definition proc_writes :: "nat \<Rightarrow> pystr \<Rightarrow> world \<Rightarrow> world" where
  "proc_writes p line w =
     (if p < length (procs w) \<and> returncode (procs w ! p) = None
      then w\<lparr>procs := (procs w)[p := (procs w ! p)
              \<lparr>stdout_pipe := stdout_pipe (procs w ! p) @ [line]\<rparr>]\<rparr>
      else w)"

definition proc_ends :: "nat \<Rightarrow> int \<Rightarrow> world \<Rightarrow> world" where
  "proc_ends p code w =
     (if p < length (procs w) \<and> returncode (procs w ! p) = None
      then w\<lparr>procs := (procs w)[p := (procs w ! p)\<lparr>returncode := Some code\<rparr>]\<rparr>
      else w)"

definition stdin_breaks :: "nat \<Rightarrow> pystr \<Rightarrow> world \<Rightarrow> world" where
  "stdin_breaks p m w =
     (if p < length (procs w)
      then w\<lparr>procs := (procs w)[p := (procs w ! p)\<lparr>stdin_broken := Some m\<rparr>]\<rparr>
      else w)"

definition stdout_garbled :: "nat \<Rightarrow> pystr \<Rightarrow> world \<Rightarrow> world" where
  "stdout_garbled p m w =
     (if p < length (procs w)
      then w\<lparr>procs := (procs w)[p := (procs w ! p)\<lparr>stdout_undecodable := Some m\<rparr>]\<rparr>
      else w)"

fun step :: "event \<Rightarrow> world \<Rightarrow> world" where
  "step (Call_run_script e url desc) w = snd (run_script e url desc w)"
| "step Call_stop_process w = stop_process w"
| "step Call_send_input w = snd (send_input w)"
| "step (Edit_entry s) w = w\<lparr>input_entry := s\<rparr>"
| "step (Proc_writes p line) w = proc_writes p line w"
| "step (Proc_ends p code) w = proc_ends p code w"
| "step (Stdin_breaks p m) w = stdin_breaks p m w"
| "step (Stdout_garbled p m) w = stdout_garbled p m w"
| "step (Reader_runs t) w = reader_step t w"

fun run :: "event list \<Rightarrow> world \<Rightarrow> world" where
  "run [] w = w"
| "run (ev # evs) w = run evs (step ev w)"

text \<open>
  The state after the module is loaded (lines 35 and 108 to 154): no process, thirteen
  script buttons and the stop button in Tk's default state, status \<open>Ready\<close>, a disabled
  and empty console, an empty entry field.
\<close>

definition initial :: world where
  "initial =
     \<lparr>current_proc = None, procs = [], files = Map.empty, next_file = 0, os_removed = [],
      threads = [], script_buttons = replicate 13 Normal, stop_btn = Normal,
      status_label = str ''Ready'',
      output_box = \<lparr>tw_state = Disabled, tw_text = []\<rparr>, input_entry = []\<rparr>"

section \<open>Notions used by the properties\<close>

text \<open>
  A session is active when \<open>current_proc\<close> is set and its process has not ended: the
  test of lines 45 and 53.
\<close>

definition session_active :: "world \<Rightarrow> bool" where
  "session_active w = (case current_proc w of None \<Rightarrow> False | Some p \<Rightarrow> poll w p = None)"

text \<open>
  The download fails with message \<open>m\<close>: \<open>requests.get\<close> raises, or the response has
  a status that \<open>raise_for_status\<close> rejects.
\<close>

definition fetch_fails :: "env \<Rightarrow> pystr \<Rightarrow> pystr \<Rightarrow> bool" where
  "fetch_fails e url m =
     (case http_get e url of Inl m' \<Rightarrow> m' = m | Inr r \<Rightarrow> raise_for_status r = Inl m)"

text \<open>
  Where a reader thread stands with respect to its temporary file: before line 103 has
  run, and when the thread has died, the file is still there; after line 103 the
  thread has removed it.
\<close>

fun holds_file :: "pc \<Rightarrow> bool" where
  "holds_file At_for = True"
| "holds_file (In_loop p) = True"
| "holds_file At_wait = True"
| "holds_file (Waiting q) = True"
| "holds_file (At_remove code) = True"
| "holds_file (Died m) = True"
| "holds_file c = False"

fun has_removed :: "pc \<Rightarrow> bool" where
  "has_removed (At_log code) = True"
| "has_removed At_reset = True"
| "has_removed Finished = True"
| "has_removed c = False"

text \<open>
  The invariant behind the cleanup: every thread has a file of its own, which is there
  until the thread removes it and is gone for good afterwards.
\<close>

definition thread_ok :: "world \<Rightarrow> reader \<Rightarrow> bool" where
  "thread_ok w r \<longleftrightarrow>
     r_tmp r < next_file w \<and>
     (if holds_file (r_pc r)
      then files w (r_tmp r) \<noteq> None \<and> count_list (os_removed w) (r_tmp r) = 0
      else has_removed (r_pc r) \<and> files w (r_tmp r) = None \<and>
           count_list (os_removed w) (r_tmp r) = 1)"

definition cleanup_inv :: "world \<Rightarrow> bool" where
  "cleanup_inv w \<longleftrightarrow>
     distinct (map r_tmp (threads w)) \<and>
     (threads w \<noteq> [] \<longrightarrow> current_proc w \<noteq> None) \<and>
     distinct (os_removed w) \<and>
     (\<forall>f. files w f \<noteq> None \<longrightarrow> f < next_file w) \<and>
     (\<forall>f \<in> set (os_removed w). files w f = None \<and> f < next_file w) \<and>
     (\<forall>t < length (threads w). thread_ok w (threads w ! t))"

text \<open>
  The invariant behind \<open>send_input\<close>: \<open>current_proc\<close> is a process of the table, and
  a pipe that is not broken has nothing left in its buffer.
\<close>

definition stdin_inv :: "world \<Rightarrow> bool" where
  "stdin_inv w \<longleftrightarrow>
     (\<forall>p. current_proc w = Some p \<longrightarrow> p < length (procs w)) \<and>
     (\<forall>p < length (procs w).
        stdin_broken (procs w ! p) = None \<longrightarrow> stdin_buffer (procs w ! p) = [])"

text \<open>
  The events of one output stream: process \<open>p\<close> writes a line, reader thread \<open>t\<close>
  takes a step. \<open>lines_written\<close> are the lines that \<open>p\<close> writes in a list of events,
  in their order; \<open>shown\<close> is what the console gains when lines are forwarded.
\<close>

fun stream_event :: "nat \<Rightarrow> nat \<Rightarrow> event \<Rightarrow> bool" where
  "stream_event p t (Proc_writes q line) = (q = p)"
| "stream_event p t (Reader_runs u) = (u = t)"
| "stream_event p t ev = False"

fun lines_written :: "nat \<Rightarrow> event list \<Rightarrow> pystr list" where
  "lines_written p [] = []"
| "lines_written p (Proc_writes q line # evs) =
     (if q = p then line # lines_written p evs else lines_written p evs)"
| "lines_written p (ev # evs) = lines_written p evs"

definition shown :: "pystr list \<Rightarrow> pystr" where
  "shown ls = concat (map (\<lambda>line. rstrip line @ [10]) ls)"

subsection \<open>Concrete surroundings and runs\<close>

text \<open>
  A locale whose encoding has the code points below 256 and no other.
\<close>

definition narrow_locale :: "pystr \<Rightarrow> pystr option" where
  "narrow_locale s =
     (if list_all (\<lambda>c. c < 256) s then None
      else Some (str ''character maps to <undefined>''))"

text \<open>
  A network that serves the script \<open>Write-Output 1\<close> for every URL, with a file system
  and a process table that work; the same with a server that answers 404; the same
  with no connection; the same without a \<open>powershell.exe\<close> to start.
\<close>

definition ok_env :: env where
  "ok_env =
     \<lparr>http_get = (\<lambda>url. Inr \<lparr>status_code = 200, reason = str ''OK'', resp_url = url,
                              resp_text = str ''Write-Output 1''\<rparr>),
      mkstemp_error = None, write_error = None, popen_error = None,
      locale_encode_error = narrow_locale\<rparr>"

definition not_found_env :: env where
  "not_found_env =
     \<lparr>http_get = (\<lambda>url. Inr \<lparr>status_code = 404, reason = str ''Not Found'', resp_url = url,
                              resp_text = []\<rparr>),
      mkstemp_error = None, write_error = None, popen_error = None,
      locale_encode_error = narrow_locale\<rparr>"

definition offline_env :: env where
  "offline_env = ok_env\<lparr>http_get := (\<lambda>url. Inl (str ''Connection refused''))\<rparr>"

definition no_powershell_env :: env where
  "no_powershell_env =
     ok_env\<lparr>popen_error := Some (str ''[WinError 2] The system cannot find the file specified'')\<rparr>"

text \<open>
  The script with URL \<open>u\<close> and label \<open>d\<close> has been started (\<open>started\<close>); its reader
  thread has entered its loop (\<open>reading\<close>); the process has then written the line
  \<open>a\<close>, a space, a newline (\<open>spaced\<close>).
\<close>

definition started :: world where
  "started = run [Call_run_script ok_env [117] [100]] initial"

definition reading :: world where
  "reading = run [Call_run_script ok_env [117] [100], Reader_runs 0] initial"

definition spaced :: world where
  "spaced = run [Proc_writes 0 [97, 32, 10]] reading"

text \<open>
  The script has been started and the user has typed \<open>y\<close> in the entry field
  (\<open>typed\<close>); the same after the process has closed its input (\<open>typed_broken\<close>).
\<close>

definition typed_events :: "event list" where
  "typed_events = [Call_run_script ok_env [117] [100], Edit_entry [121]]"

definition typed :: world where
  "typed = run typed_events initial"

definition typed_broken_events :: "event list" where
  "typed_broken_events =
     [Call_run_script ok_env [117] [100], Edit_entry [121],
      Stdin_breaks 0 (str ''[Errno 32] Broken pipe'')]"

definition typed_broken :: world where
  "typed_broken = run typed_broken_events initial"

text \<open>
  The script has been started and the user has typed the triangle U+25B6, which the
  encoding of the pipe does not have (\<open>typed_triangle\<close>).
\<close>

definition typed_triangle_events :: "event list" where
  "typed_triangle_events = [Call_run_script ok_env [117] [100], Edit_entry [9654]]"

definition typed_triangle :: world where
  "typed_triangle = run typed_triangle_events initial"

text \<open>The process writes the lines A, B and C while its reader forwards them.\<close>

definition abc_events :: "event list" where
  "abc_events =
     [Proc_writes 0 [65, 10], Reader_runs 0, Proc_writes 0 [66, 10], Proc_writes 0 [67, 10],
      Reader_runs 0, Reader_runs 0]"



section \<open>Properties\<close>

subsection \<open>Basic facts\<close>

lemmas model_defs =
  run_script_def download_def NamedTemporaryFile_def tmp_write_def Popen_def
  start_reader_def Let_def log_line_def raise_for_status_def reader_step_def set_pc_def
  os_remove_def forward_line_def proc_writes_def proc_ends_def stdin_breaks_def
  stdout_garbled_def
  stop_process_def kill_def kill_proc_def poll_def reset_ui_def send_input_def
  stdin_write_def stdin_flush_def write_log_def insert_end_def configure_state_def

lemma tw_text_write_log [simp]: "tw_text (write_log b m) = tw_text b @ m @ [10]"
  by (simp add: write_log_def insert_end_def configure_state_def)

lemma tw_state_write_log [simp]: "tw_state (write_log b m) = Disabled"
  by (simp add: write_log_def insert_end_def configure_state_def)

lemma log_line_fields [simp]:
  "current_proc (log_line m w) = current_proc w"
  "procs (log_line m w) = procs w"
  "files (log_line m w) = files w"
  "next_file (log_line m w) = next_file w"
  "os_removed (log_line m w) = os_removed w"
  "threads (log_line m w) = threads w"
  "script_buttons (log_line m w) = script_buttons w"
  "stop_btn (log_line m w) = stop_btn w"
  "status_label (log_line m w) = status_label w"
  "input_entry (log_line m w) = input_entry w"
  "output_box (log_line m w) = write_log (output_box w) m"
  by (simp_all add: log_line_def)

lemma reset_ui_fields [simp]:
  "current_proc (reset_ui w) = current_proc w"
  "procs (reset_ui w) = procs w"
  "files (reset_ui w) = files w"
  "next_file (reset_ui w) = next_file w"
  "os_removed (reset_ui w) = os_removed w"
  "threads (reset_ui w) = threads w"
  "script_buttons (reset_ui w) = map (\<lambda>btn. Normal) (script_buttons w)"
  "stop_btn (reset_ui w) = Disabled"
  "status_label (reset_ui w) = str ''Ready''"
  "input_entry (reset_ui w) = input_entry w"
  "output_box (reset_ui w) = output_box w"
  by (simp_all add: reset_ui_def)

lemma map_update_same: "(map f xs)[t := f (xs ! t)] = map f xs"
proof (cases "t < length xs")
  case True
  then have "f (xs ! t) = map f xs ! t" by simp
  then show ?thesis by (simp only: list_update_id)
next
  case False
  then show ?thesis by (simp add: list_update_beyond)
qed

lemma nth_update_total: "xs[i := y] ! j = (if i = j \<and> i < length xs then y else xs ! j)"
  by (cases "i < length xs") (auto simp: list_update_beyond)

lemma set_pc_fields [simp]:
  "current_proc (set_pc t c w) = current_proc w"
  "procs (set_pc t c w) = procs w"
  "files (set_pc t c w) = files w"
  "next_file (set_pc t c w) = next_file w"
  "os_removed (set_pc t c w) = os_removed w"
  "output_box (set_pc t c w) = output_box w"
  "length (threads (set_pc t c w)) = length (threads w)"
  "map r_tmp (threads (set_pc t c w)) = map r_tmp (threads w)"
  by (simp_all add: set_pc_def map_update map_update_same)

lemma threads_set_pc:
  "u < length (threads w) \<Longrightarrow>
   threads (set_pc t c w) ! u = (if u = t then (threads w ! t)\<lparr>r_pc := c\<rparr> else threads w ! u)"
  by (simp add: set_pc_def)

text \<open>What a call of \<open>run_script\<close> does when nothing fails.\<close>

lemma run_script_launch:
  assumes "http_get e url = Inr r" "raise_for_status r = Inr ()"
    "mkstemp_error e = None" "write_error e = None" "popen_error e = None"
  shows "run_script e url desc w =
    (Returned,
     w\<lparr>script_buttons := map (\<lambda>btn. Disabled) (script_buttons w),
       stop_btn := Normal,
       status_label := str ''Running: '' @ desc,
       output_box := write_log (write_log (write_log (output_box w) ([62, 9654, 32] @ desc))
                        (str ''Downloading from '' @ url))
                        (str ''Saved to '' @ tmp_name (next_file w)),
       files := (files w)(next_file w \<mapsto> PS_OVERRIDE @ [10] @ resp_text r),
       next_file := Suc (next_file w),
       procs := procs w @
         [\<lparr>argv = [str ''powershell.exe'', str ''-NoProfile'', str ''-ExecutionPolicy'',
                   str ''Bypass'', str ''-File'', tmp_name (next_file w)],
           p_stdin = PIPE, p_stdout = PIPE, p_stderr = STDOUT,
           text_mode = True, returncode = None, stdin_buffer = [],
           stdin_pipe = [], stdin_broken = None,
           stdin_encode_error = locale_encode_error e,
           stdout_pipe = [], stdout_undecodable = None\<rparr>],
       current_proc := Some (length (procs w)),
       threads := threads w @ [\<lparr>r_pc = At_for, r_tmp = next_file w\<rparr>]\<rparr>)"
  using assms
  by (simp add: run_script_def download_def NamedTemporaryFile_def tmp_write_def Popen_def
      start_reader_def Let_def log_line_def)

text \<open>What any call of \<open>run_script\<close> does to processes, files and threads.\<close>

lemma run_script_effect:
  fixes w e url desc
  defines "w' \<equiv> snd (run_script e url desc w)"
  shows "os_removed w' = os_removed w \<and> input_entry w' = input_entry w \<and>
    (threads w' = threads w \<and> procs w' = procs w \<and> current_proc w' = current_proc w \<and>
       (files w' = files w \<and> next_file w' = next_file w \<or>
        (\<exists>c. files w' = (files w)(next_file w \<mapsto> c)) \<and> next_file w' = Suc (next_file w))
     \<or>
     threads w' = threads w @ [\<lparr>r_pc = At_for, r_tmp = next_file w\<rparr>] \<and>
       (\<exists>pr. procs w' = procs w @ [pr] \<and> stdin_buffer pr = []) \<and>
       current_proc w' = Some (length (procs w)) \<and>
       (\<exists>c. files w' = (files w)(next_file w \<mapsto> c)) \<and> next_file w' = Suc (next_file w))"
  unfolding w'_def
  by (auto simp: run_script_def download_def NamedTemporaryFile_def tmp_write_def Popen_def
      start_reader_def Let_def split: sum.splits option.splits prod.splits)

lemma started_fields:
  "current_proc started = Some 0"
  "length (procs started) = 1"
  "returncode (procs started ! 0) = None"
  "stdin_broken (procs started ! 0) = None"
  "next_file started = 1"
  "files started 0 = Some (PS_OVERRIDE @ [10] @ str ''Write-Output 1'')"
  "threads started = [\<lparr>r_pc = At_for, r_tmp = 0\<rparr>]"
  by (simp_all add: started_def ok_env_def initial_def model_defs)

lemma reading_fields:
  "threads reading = [\<lparr>r_pc = In_loop 0, r_tmp = 0\<rparr>]"
  "length (procs reading) = 1"
  "returncode (procs reading ! 0) = None"
  "stdout_pipe (procs reading ! 0) = []"
  "stdout_undecodable (procs reading ! 0) = None"
  by (simp_all add: reading_def ok_env_def initial_def model_defs)

subsection \<open>The temporary file and its reader thread\<close>

lemma cleanup_inv_initial: "cleanup_inv initial"
  by (simp add: cleanup_inv_def initial_def)

text \<open>The invariant looks at files, threads and removals only.\<close>

lemma cleanup_inv_frame:
  assumes "cleanup_inv w" "threads w' = threads w" "files w' = files w"
    "next_file w' = next_file w" "os_removed w' = os_removed w"
    "current_proc w = None \<longleftrightarrow> current_proc w' = None"
  shows "cleanup_inv w'"
  using assms by (simp add: cleanup_inv_def thread_ok_def)

lemma cleanup_inv_set_pc:
  assumes "cleanup_inv w" "t < length (threads w)"
    "holds_file c = holds_file (r_pc (threads w ! t))"
    "has_removed c = has_removed (r_pc (threads w ! t))"
  shows "cleanup_inv (set_pc t c w)"
  using assms unfolding cleanup_inv_def
  by (auto simp: threads_set_pc thread_ok_def)

lemma tmp_distinct:
  assumes "distinct (map r_tmp ths)" "t < length ths" "u < length ths" "u \<noteq> t"
  shows "r_tmp (ths ! u) \<noteq> r_tmp (ths ! t)"
proof -
  from assms have "map r_tmp ths ! u \<noteq> map r_tmp ths ! t"
    by (simp add: nth_eq_iff_index_eq del: nth_map)
  with assms show ?thesis by simp
qed

text \<open>Line 103: the file is there, and after the call this thread alone has removed it.\<close>

lemma cleanup_inv_remove:
  assumes inv: "cleanup_inv w" and t: "t < length (threads w)"
    and pc: "r_pc (threads w ! t) = At_remove code"
  shows "\<exists>w1. os_remove (r_tmp (threads w ! t)) w = Inr w1 \<and>
           cleanup_inv (set_pc t (At_log code) w1)"
proof -
  let ?f = "r_tmp (threads w ! t)"
  let ?w1 = "w\<lparr>files := (files w)(?f := None), os_removed := os_removed w @ [?f]\<rparr>"
  let ?w2 = "set_pc t (At_log code) ?w1"
  from inv t pc have ok: "thread_ok w (threads w ! t)"
    by (simp add: cleanup_inv_def)
  with pc have ex: "files w ?f \<noteq> None" and cnt: "count_list (os_removed w) ?f = 0"
    and lt: "?f < next_file w"
    by (simp_all add: thread_ok_def)
  from ex have rem: "os_remove ?f w = Inr ?w1"
    by (auto simp: os_remove_def)
  from cnt have notin: "?f \<notin> set (os_removed w)"
    by (simp add: count_list_0_iff)
  have others: "r_tmp (threads w ! u) \<noteq> ?f" if "u < length (threads w)" "u \<noteq> t" for u
    using tmp_distinct [of "threads w" t u] inv t that by (simp add: cleanup_inv_def)
  have "thread_ok ?w2 (threads ?w2 ! u)" if u: "u < length (threads w)" for u
  proof (cases "u = t")
    case True
    with t lt cnt show ?thesis
      by (simp add: set_pc_def thread_ok_def)
  next
    case False
    from inv u have "thread_ok w (threads w ! u)" by (simp add: cleanup_inv_def)
    with False others [OF u False] u show ?thesis
      by (simp add: set_pc_def thread_ok_def)
  qed
  moreover have "distinct (map r_tmp (threads ?w2))"
    using inv by (simp add: set_pc_def cleanup_inv_def map_update map_update_same)
  moreover have "threads ?w2 \<noteq> [] \<longrightarrow> current_proc ?w2 \<noteq> None"
    using inv t by (auto simp: set_pc_def cleanup_inv_def)
  moreover have "distinct (os_removed ?w2)"
    using inv notin by (simp add: set_pc_def cleanup_inv_def)
  moreover have "\<forall>f. files ?w2 f \<noteq> None \<longrightarrow> f < next_file ?w2"
    using inv by (simp add: set_pc_def cleanup_inv_def)
  moreover have "\<forall>f \<in> set (os_removed ?w2). files ?w2 f = None \<and> f < next_file ?w2"
    using inv lt by (simp add: set_pc_def cleanup_inv_def)
  ultimately have "cleanup_inv ?w2"
    by (simp add: cleanup_inv_def set_pc_def)
  with rem show ?thesis by blast
qed

lemma cleanup_inv_reader_step:
  assumes inv: "cleanup_inv w"
  shows "cleanup_inv (reader_step t w)"
proof (cases "t < length (threads w)")
  case False
  then show ?thesis using inv by (simp add: reader_step_def)
next
  case t: True
  then have ne: "current_proc w \<noteq> None"
    using inv by (auto simp: cleanup_inv_def)
  show ?thesis
  proof (cases "r_pc (threads w ! t)")
    case At_for
    with t ne inv show ?thesis
      by (auto simp: reader_step_def intro!: cleanup_inv_set_pc)
  next
    case (In_loop p)
    show ?thesis
    proof (cases "stdout_undecodable (procs w ! p)")
      case (Some m)
      with In_loop t inv show ?thesis
        by (auto simp: reader_step_def intro!: cleanup_inv_set_pc)
    next
      case None
      show ?thesis
      proof (cases "stdout_pipe (procs w ! p)")
        case Nil
        with None In_loop t inv show ?thesis
          by (auto simp: reader_step_def intro!: cleanup_inv_set_pc)
      next
        case (Cons line rest)
        with None In_loop t show ?thesis
          by (auto simp: reader_step_def forward_line_def intro!: cleanup_inv_frame [OF inv])
      qed
    qed
  next
    case At_wait
    with t ne inv show ?thesis
      by (auto simp: reader_step_def intro!: cleanup_inv_set_pc)
  next
    case (Waiting q)
    with t inv show ?thesis
      by (auto simp: reader_step_def intro!: cleanup_inv_set_pc split: option.splits)
  next
    case (At_remove code)
    with cleanup_inv_remove [OF inv t At_remove] t show ?thesis
      by (auto simp: reader_step_def)
  next
    case (At_log code)
    have "cleanup_inv (log_line (str ''[Completed] Exit code: '' @ str_of_int code) w)"
      by (rule cleanup_inv_frame [OF inv]) simp_all
    with At_log t show ?thesis
      by (auto simp: reader_step_def intro!: cleanup_inv_set_pc)
  next
    case At_reset
    have "cleanup_inv (reset_ui w)"
      by (rule cleanup_inv_frame [OF inv]) simp_all
    with At_reset t show ?thesis
      by (auto simp: reader_step_def intro!: cleanup_inv_set_pc)
  next
    case Finished
    with t inv show ?thesis by (simp add: reader_step_def)
  next
    case (Died m)
    with t inv show ?thesis by (simp add: reader_step_def)
  qed
qed

text \<open>A new file gets the next number, which no thread and no removal has used.\<close>

lemma cleanup_inv_new_file:
  assumes inv: "cleanup_inv w" and f: "files w' = (files w)(next_file w \<mapsto> c)"
    and n: "next_file w' = Suc (next_file w)" and r: "os_removed w' = os_removed w"
    and th: "threads w' = threads w" and cp: "current_proc w = None \<longleftrightarrow> current_proc w' = None"
  shows "cleanup_inv w'"
proof -
  have "thread_ok w' (threads w ! t)" if "t < length (threads w)" for t
  proof -
    from inv that have "thread_ok w (threads w ! t)" by (simp add: cleanup_inv_def)
    then show ?thesis by (auto simp: thread_ok_def f n r)
  qed
  moreover have "\<forall>g \<in> set (os_removed w). files w' g = None \<and> g < next_file w'"
    using inv by (auto simp: cleanup_inv_def f n)
  moreover have "\<forall>g. files w' g \<noteq> None \<longrightarrow> g < next_file w'"
    using inv by (auto simp: cleanup_inv_def f n less_Suc_eq)
  ultimately show ?thesis
    using inv by (simp add: cleanup_inv_def th r cp [symmetric])
qed

lemma cleanup_inv_run_script:
  assumes inv: "cleanup_inv w"
  shows "cleanup_inv (snd (run_script e url desc w))"
proof -
  let ?w' = "snd (run_script e url desc w)"
  let ?nf = "next_file w"
  from run_script_effect [of e url desc w]
  consider (same) "threads ?w' = threads w" "current_proc ?w' = current_proc w"
      "files ?w' = files w" "next_file ?w' = ?nf" "os_removed ?w' = os_removed w"
    | (created) c where "threads ?w' = threads w" "current_proc ?w' = current_proc w"
      "files ?w' = (files w)(?nf \<mapsto> c)" "next_file ?w' = Suc ?nf"
      "os_removed ?w' = os_removed w"
    | (launched) c where "threads ?w' = threads w @ [\<lparr>r_pc = At_for, r_tmp = ?nf\<rparr>]"
      "current_proc ?w' = Some (length (procs w))"
      "files ?w' = (files w)(?nf \<mapsto> c)" "next_file ?w' = Suc ?nf"
      "os_removed ?w' = os_removed w"
    by blast
  then show ?thesis
  proof cases
    case same
    then show ?thesis by (intro cleanup_inv_frame [OF inv]) simp_all
  next
    case created
    then show ?thesis by (intro cleanup_inv_new_file [OF inv]) simp_all
  next
    case launched
    have nr: "?nf \<notin> set (os_removed w)" using inv by (auto simp: cleanup_inv_def)
    have lt: "r_tmp (threads w ! t) < ?nf" if "t < length (threads w)" for t
      using inv that by (auto simp: cleanup_inv_def thread_ok_def)
    have old: "thread_ok ?w' (threads w ! t)" if "t < length (threads w)" for t
    proof -
      from inv that have "thread_ok w (threads w ! t)" by (simp add: cleanup_inv_def)
      then show ?thesis by (auto simp: thread_ok_def launched)
    qed
    have new: "thread_ok ?w' \<lparr>r_pc = At_for, r_tmp = ?nf\<rparr>"
      using nr by (simp add: thread_ok_def launched count_list_0_iff)
    have "thread_ok ?w' (threads ?w' ! t)" if "t < length (threads ?w')" for t
      using that old new by (auto simp: launched nth_append less_Suc_eq)
    moreover have "distinct (map r_tmp (threads ?w'))"
    proof -
      have "?nf \<notin> set (map r_tmp (threads w))"
        using lt by (fastforce simp: in_set_conv_nth)
      then show ?thesis using inv by (simp add: launched cleanup_inv_def)
    qed
    moreover have "\<forall>g \<in> set (os_removed ?w'). files ?w' g = None \<and> g < next_file ?w'"
      using inv by (auto simp: cleanup_inv_def launched)
    moreover have "\<forall>g. files ?w' g \<noteq> None \<longrightarrow> g < next_file ?w'"
      using inv by (auto simp: cleanup_inv_def launched less_Suc_eq)
    ultimately show ?thesis
      using inv by (simp add: cleanup_inv_def launched)
  qed
qed

lemma cleanup_inv_step:
  assumes inv: "cleanup_inv w"
  shows "cleanup_inv (step ev w)"
proof (cases ev)
  case (Call_run_script e url desc)
  with inv show ?thesis by (simp add: cleanup_inv_run_script)
next
  case Call_stop_process
  show ?thesis unfolding Call_stop_process
    by (rule cleanup_inv_frame [OF inv])
      (simp_all add: stop_process_def kill_def split: option.splits)
next
  case Call_send_input
  show ?thesis unfolding Call_send_input
    by (rule cleanup_inv_frame [OF inv])
      (simp_all add: send_input_def stdin_write_def stdin_flush_def Let_def
        split: option.splits sum.splits)
next
  case (Edit_entry s)
  show ?thesis unfolding Edit_entry
    by (rule cleanup_inv_frame [OF inv]) simp_all
next
  case (Proc_writes p line)
  show ?thesis unfolding Proc_writes
    by (rule cleanup_inv_frame [OF inv]) (simp_all add: proc_writes_def)
next
  case (Proc_ends p code)
  show ?thesis unfolding Proc_ends
    by (rule cleanup_inv_frame [OF inv]) (simp_all add: proc_ends_def)
next
  case (Stdin_breaks p m)
  show ?thesis unfolding Stdin_breaks
    by (rule cleanup_inv_frame [OF inv]) (simp_all add: stdin_breaks_def)
next
  case (Stdout_garbled p m)
  show ?thesis unfolding Stdout_garbled
    by (rule cleanup_inv_frame [OF inv]) (simp_all add: stdout_garbled_def)
next
  case (Reader_runs t)
  with inv show ?thesis by (simp add: cleanup_inv_reader_step)
qed

lemma cleanup_inv_run: "cleanup_inv w \<Longrightarrow> cleanup_inv (run evs w)"
  by (induction evs arbitrary: w) (simp_all add: cleanup_inv_step)





subsection \<open>Input for the process\<close>

lemma stdin_inv_initial: "stdin_inv initial"
  by (simp add: stdin_inv_def initial_def)

lemma stdin_inv_run_script:
  assumes "stdin_inv w"
  shows "stdin_inv (snd (run_script e url desc w))"
  using assms
  by (auto simp: stdin_inv_def run_script_def download_def NamedTemporaryFile_def tmp_write_def
      Popen_def start_reader_def Let_def nth_append
      split: sum.splits option.splits prod.splits)

lemma stdin_inv_stop_process:
  assumes "stdin_inv w"
  shows "stdin_inv (stop_process w)"
  using assms
  by (auto simp: stdin_inv_def stop_process_def kill_def kill_proc_def nth_update_total
      split: option.splits)

lemma stdin_inv_send_input:
  assumes "stdin_inv w"
  shows "stdin_inv (snd (send_input w))"
  using assms
  by (auto simp: stdin_inv_def send_input_def stdin_write_def stdin_flush_def Let_def
      nth_update_total split: option.splits sum.splits)

lemma stdin_inv_reader_step:
  assumes "stdin_inv w"
  shows "stdin_inv (reader_step t w)"
  using assms
  by (auto simp: stdin_inv_def reader_step_def forward_line_def set_pc_def os_remove_def
      nth_update_total split: option.splits sum.splits pc.splits list.splits)

lemma stdin_inv_step:
  assumes "stdin_inv w"
  shows "stdin_inv (step ev w)"
proof (cases ev)
  case (Call_run_script e url desc)
  with assms show ?thesis by (simp add: stdin_inv_run_script)
next
  case Call_stop_process
  with assms show ?thesis by (simp add: stdin_inv_stop_process)
next
  case Call_send_input
  with assms show ?thesis by (simp add: stdin_inv_send_input)
next
  case (Edit_entry s)
  with assms show ?thesis by (simp add: stdin_inv_def)
next
  case (Proc_writes p line)
  with assms show ?thesis by (auto simp: stdin_inv_def proc_writes_def nth_update_total)
next
  case (Proc_ends p code)
  with assms show ?thesis by (auto simp: stdin_inv_def proc_ends_def nth_update_total)
next
  case (Stdin_breaks p m)
  with assms show ?thesis by (auto simp: stdin_inv_def stdin_breaks_def nth_update_total)
next
  case (Stdout_garbled p m)
  with assms show ?thesis by (auto simp: stdin_inv_def stdout_garbled_def nth_update_total)
next
  case (Reader_runs t)
  with assms show ?thesis by (simp add: stdin_inv_reader_step)
qed

lemma stdin_inv_run: "stdin_inv w \<Longrightarrow> stdin_inv (run evs w)"
  by (induction evs arbitrary: w) (simp_all add: stdin_inv_step)

lemma typed_fields:
  "current_proc typed = Some 0"
  "poll typed 0 = None"
  "stdin_broken (procs typed ! 0) = None"
  "stdin_encode_error (procs typed ! 0) = narrow_locale"
  "stdin_pipe (procs typed ! 0) = []"
  "input_entry typed = [121]"
  "length (procs typed) = 1"
  by (simp_all add: typed_def typed_events_def ok_env_def initial_def model_defs)

lemma typed_broken_fields:
  "current_proc typed_broken = Some 0"
  "poll typed_broken 0 = None"
  "stdin_broken (procs typed_broken ! 0) = Some (str ''[Errno 32] Broken pipe'')"
  "stdin_encode_error (procs typed_broken ! 0) = narrow_locale"
  "stdin_pipe (procs typed_broken ! 0) = []"
  "input_entry typed_broken = [121]"
  by (simp_all add: typed_broken_def typed_broken_events_def ok_env_def initial_def model_defs)

lemma typed_triangle_fields:
  "current_proc typed_triangle = Some 0"
  "poll typed_triangle 0 = None"
  "stdin_broken (procs typed_triangle ! 0) = None"
  "stdin_encode_error (procs typed_triangle ! 0) = narrow_locale"
  "input_entry typed_triangle = [9654]"
  by (simp_all add: typed_triangle_def typed_triangle_events_def ok_env_def initial_def
      model_defs)

text \<open>
  C5: in every state that a run of the program reaches and in which a session is
  active, \<open>send_input\<close> returns and raises nothing, whatever the text of the entry
  field. When the text with its newline can be encoded and the pipe is in order, the
  process receives the text of the entry field followed by a newline, nothing else,
  nothing stays in the buffer, and the console echoes the text. When the write fails
  (the text cannot be encoded, message \<open>m\<close>) or the flush fails (the pipe is broken,
  message \<open>m\<close>), the process receives nothing and the console shows
  \<open>[Send error] m\<close>.
\<close>

theorem send_input_running:
  assumes w: "w = run evs initial"
    and cur: "current_proc w = Some p" and alive: "poll w p = None"
  shows "fst (send_input w) = Returned \<and>
    (case stdin_encode_error (procs w ! p) (input_entry w @ [10]) of
       Some m \<Rightarrow>
         procs (snd (send_input w)) = procs w \<and>
         tw_text (output_box (snd (send_input w))) =
           tw_text (output_box w) @ str ''[Send error] '' @ m @ [10]
     | None \<Rightarrow>
         (case stdin_broken (procs w ! p) of
            None \<Rightarrow>
              procs (snd (send_input w)) =
                (procs w)[p := (procs w ! p)
                   \<lparr>stdin_pipe := stdin_pipe (procs w ! p) @ input_entry w @ [10],
                    stdin_buffer := []\<rparr>] \<and>
              tw_text (output_box (snd (send_input w))) =
                tw_text (output_box w) @ str ''> '' @ input_entry w @ [10]
          | Some m \<Rightarrow>
              stdin_pipe (procs (snd (send_input w)) ! p) = stdin_pipe (procs w ! p) \<and>
              tw_text (output_box (snd (send_input w))) =
                tw_text (output_box w) @ str ''[Send error] '' @ m @ [10]))"
proof -
  have inv: "stdin_inv w" unfolding w by (rule stdin_inv_run [OF stdin_inv_initial])
  with cur have p: "p < length (procs w)" by (simp add: stdin_inv_def)
  with inv have buf: "stdin_broken (procs w ! p) = None \<Longrightarrow> stdin_buffer (procs w ! p) = []"
    by (simp add: stdin_inv_def)
  show ?thesis
    using cur alive p buf
    by (auto simp: send_input_def stdin_write_def stdin_flush_def Let_def split: option.splits)
qed

theorem send_input_running_witness:
  "typed = run typed_events initial \<and> current_proc typed = Some 0 \<and> poll typed 0 = None \<and>
   fst (send_input typed) = Returned \<and>
   stdin_pipe (procs (snd (send_input typed)) ! 0) = [121, 10] \<and>
   tw_text (output_box (snd (send_input typed))) =
     tw_text (output_box typed) @ str ''> '' @ [121, 10] \<and>
   typed_broken = run typed_broken_events initial \<and> current_proc typed_broken = Some 0 \<and>
   poll typed_broken 0 = None \<and>
   fst (send_input typed_broken) = Returned \<and>
   stdin_pipe (procs (snd (send_input typed_broken)) ! 0) = [] \<and>
   tw_text (output_box (snd (send_input typed_broken))) =
     tw_text (output_box typed_broken) @ str ''[Send error] '' @
     str ''[Errno 32] Broken pipe'' @ [10] \<and>
   typed_triangle = run typed_triangle_events initial \<and>
   current_proc typed_triangle = Some 0 \<and> poll typed_triangle 0 = None \<and>
   fst (send_input typed_triangle) = Returned \<and>
   procs (snd (send_input typed_triangle)) = procs typed_triangle \<and>
   tw_text (output_box (snd (send_input typed_triangle))) =
     tw_text (output_box typed_triangle) @ str ''[Send error] '' @
     str ''character maps to <undefined>'' @ [10]"
proof -
  from send_input_running [OF typed_def typed_fields(1) typed_fields(2)]
  have "fst (send_input typed) = Returned \<and>
        stdin_pipe (procs (snd (send_input typed)) ! 0) = [121, 10] \<and>
        tw_text (output_box (snd (send_input typed))) =
          tw_text (output_box typed) @ str ''> '' @ [121, 10]"
    by (simp add: typed_fields narrow_locale_def)
  moreover from send_input_running [OF typed_broken_def typed_broken_fields(1) typed_broken_fields(2)]
  have "fst (send_input typed_broken) = Returned \<and>
        stdin_pipe (procs (snd (send_input typed_broken)) ! 0) = [] \<and>
        tw_text (output_box (snd (send_input typed_broken))) =
          tw_text (output_box typed_broken) @ str ''[Send error] '' @
          str ''[Errno 32] Broken pipe'' @ [10]"
    by (simp add: typed_broken_fields narrow_locale_def)
  moreover from send_input_running [OF typed_triangle_def typed_triangle_fields(1)
      typed_triangle_fields(2)]
  have "fst (send_input typed_triangle) = Returned \<and>
        procs (snd (send_input typed_triangle)) = procs typed_triangle \<and>
        tw_text (output_box (snd (send_input typed_triangle))) =
          tw_text (output_box typed_triangle) @ str ''[Send error] '' @
          str ''character maps to <undefined>'' @ [10]"
    by (simp add: typed_triangle_fields narrow_locale_def)
  ultimately show ?thesis
    by (simp add: typed_fields typed_broken_fields typed_triangle_fields typed_def [symmetric]
        typed_broken_def [symmetric] typed_triangle_def [symmetric])
qed

text \<open>
  C4, as the code has it: with no active session (\<open>current_proc\<close> is unset, or its
  process has ended), \<open>send_input\<close> writes to no process, logs nothing and signals no
  error: it returns, and the only change is the emptied entry field.
\<close>

theorem send_input_idle:
  "\<not> session_active w \<Longrightarrow> send_input w = (Returned, w\<lparr>input_entry := []\<rparr>)"
  by (auto simp: send_input_def session_active_def Let_def split: option.splits)

theorem send_input_idle_witness:
  "\<not> session_active (initial\<lparr>input_entry := [121]\<rparr>) \<and>
   send_input (initial\<lparr>input_entry := [121]\<rparr>) = (Returned, initial\<lparr>input_entry := []\<rparr>)"
proof -
  have idle: "\<not> session_active (initial\<lparr>input_entry := [121]\<rparr>)"
    by (simp add: session_active_def initial_def)
  from send_input_idle [OF idle] idle show ?thesis by simp
qed

text \<open>
  C4 as stated fails: with the letter \<open>y\<close> in the entry field and no session,
  \<open>send_input\<close> returns normally and the console stays as it was, so no
  \<open>NotRunning\<close> error comes back or is shown.
\<close>

theorem send_input_idle_no_error:
  "\<not> session_active (initial\<lparr>input_entry := [121]\<rparr>) \<and>
   fst (send_input (initial\<lparr>input_entry := [121]\<rparr>)) = Returned \<and>
   output_box (snd (send_input (initial\<lparr>input_entry := [121]\<rparr>))) = output_box initial"
  by (simp add: send_input_def session_active_def initial_def Let_def)

subsection \<open>Starting a script\<close>

text \<open>
  C6: when the download fails with message \<open>m\<close> (\<open>requests.get\<close> raises, or
  \<open>raise_for_status\<close> rejects the status), \<open>run_script\<close> returns normally; the text
  of the console gains exactly the two announcements and the line
  \<open>[Download error] m\<close>; every script button is enabled, the stop button is disabled
  and the status is \<open>Ready\<close>; no process is started and no file is written: processes,
  files, threads and \<open>current_proc\<close> are what they were, so a controller that was idle
  is idle afterwards.
\<close>

theorem fetch_failure_reported:
  assumes fails: "fetch_fails e url m"
  shows "fst (run_script e url desc w) = Returned \<and>
     tw_text (output_box (snd (run_script e url desc w))) =
       tw_text (output_box w) @ [62, 9654, 32] @ desc @ [10] @
       str ''Downloading from '' @ url @ [10] @
       str ''[Download error] '' @ m @ [10] \<and>
     script_buttons (snd (run_script e url desc w)) =
       replicate (length (script_buttons w)) Normal \<and>
     stop_btn (snd (run_script e url desc w)) = Disabled \<and>
     status_label (snd (run_script e url desc w)) = str ''Ready'' \<and>
     procs (snd (run_script e url desc w)) = procs w \<and>
     files (snd (run_script e url desc w)) = files w \<and>
     next_file (snd (run_script e url desc w)) = next_file w \<and>
     os_removed (snd (run_script e url desc w)) = os_removed w \<and>
     threads (snd (run_script e url desc w)) = threads w \<and>
     current_proc (snd (run_script e url desc w)) = current_proc w \<and>
     input_entry (snd (run_script e url desc w)) = input_entry w \<and>
     session_active (snd (run_script e url desc w)) = session_active w"
proof -
  from fails have run: "run_script e url desc w =
     (Returned,
      reset_ui (log_line (str ''[Download error] '' @ m)
        (log_line (str ''Downloading from '' @ url)
          (log_line ([62, 9654, 32] @ desc)
            (w\<lparr>script_buttons := map (\<lambda>btn. Disabled) (script_buttons w),
               stop_btn := Normal,
               status_label := str ''Running: '' @ desc\<rparr>)))))"
    by (auto simp: fetch_fails_def run_script_def download_def Let_def split: sum.splits)
  show ?thesis
    unfolding run
    by (auto simp: session_active_def poll_def map_replicate_const split: option.splits)
qed

theorem fetch_failure_reported_witness:
  "fetch_fails not_found_env [117]
     (str_of_int 404 @ str '' Client Error: '' @ str ''Not Found'' @ str '' for url: '' @ [117]) \<and>
   fst (run_script not_found_env [117] [100] initial) = Returned \<and>
   tw_text (output_box (snd (run_script not_found_env [117] [100] initial))) =
     [62, 9654, 32, 100, 10] @ str ''Downloading from '' @ [117, 10] @
     str ''[Download error] '' @
     str_of_int 404 @ str '' Client Error: '' @ str ''Not Found'' @ str '' for url: '' @
     [117, 10] \<and>
   procs (snd (run_script not_found_env [117] [100] initial)) = [] \<and>
   files (snd (run_script not_found_env [117] [100] initial)) = Map.empty \<and>
   script_buttons (snd (run_script not_found_env [117] [100] initial)) = replicate 13 Normal \<and>
   stop_btn (snd (run_script not_found_env [117] [100] initial)) = Disabled \<and>
   \<not> session_active (snd (run_script not_found_env [117] [100] initial)) \<and>
   fetch_fails offline_env [117] (str ''Connection refused'') \<and>
   tw_text (output_box (snd (run_script offline_env [117] [100] initial))) =
     [62, 9654, 32, 100, 10] @ str ''Downloading from '' @ [117, 10] @
     str ''[Download error] '' @ str ''Connection refused'' @ [10]"
proof -
  have fails: "fetch_fails not_found_env [117]
     (str_of_int 404 @ str '' Client Error: '' @ str ''Not Found'' @ str '' for url: '' @ [117])"
    by (simp add: fetch_fails_def not_found_env_def raise_for_status_def)
  have off: "fetch_fails offline_env [117] (str ''Connection refused'')"
    by (simp add: fetch_fails_def offline_env_def)
  have idle: "\<not> session_active initial"
    by (simp add: session_active_def initial_def)
  from fetch_failure_reported [OF fails, of "[100]" initial]
    fetch_failure_reported [OF off, of "[100]" initial] fails off idle
  show ?thesis
    by (simp add: initial_def)
qed

text \<open>
  C7 fails on the code for the launch error. The download succeeds and
  \<open>powershell.exe\<close> cannot be started: the exception of \<open>Popen\<close> leaves
  \<open>run_script\<close>; the console shows the three announcements and no error; the script
  buttons stay disabled and the status stays \<open>Running\<close>; the temporary file stays on
  disk; and \<open>stop_process\<close> changes nothing afterwards, so nothing enables the
  buttons again.
\<close>

theorem launch_error_escapes:
  "run_script no_powershell_env [117] [100] initial =
     (Raised (str ''[WinError 2] The system cannot find the file specified''),
      initial\<lparr>script_buttons := replicate 13 Disabled,
        stop_btn := Normal,
        status_label := str ''Running: '' @ [100],
        output_box := write_log (write_log (write_log (output_box initial) [62, 9654, 32, 100])
                         (str ''Downloading from '' @ [117]))
                         (str ''Saved to '' @ tmp_name 0),
        files := [0 \<mapsto> PS_OVERRIDE @ [10] @ str ''Write-Output 1''],
        next_file := 1\<rparr>) \<and>
   stop_process (snd (run_script no_powershell_env [117] [100] initial)) =
     snd (run_script no_powershell_env [117] [100] initial)"
  by (simp add: no_powershell_env_def ok_env_def initial_def run_script_def download_def
      NamedTemporaryFile_def tmp_write_def Popen_def Let_def log_line_def raise_for_status_def
      stop_process_def)

text \<open>
  C9: in every state that a run of the program reaches, when the download succeeds with
  response \<open>r\<close> and neither the file system nor the launch fails, \<open>run_script\<close> returns
  normally; the temporary file is new; it holds \<open>PS_OVERRIDE\<close>, a newline and the
  body of the response, in this order and nothing else; and the process table gains one
  process, now \<open>current_proc\<close>, started as
  \<open>powershell.exe -NoProfile -ExecutionPolicy Bypass -File\<close> on that file, with
  standard input and output on pipes and standard error on the output pipe.
\<close>

theorem start_writes_shim_and_launches:
  assumes w: "w = run evs initial"
    and ok: "http_get e url = Inr r" "raise_for_status r = Inr ()"
      "mkstemp_error e = None" "write_error e = None" "popen_error e = None"
  shows "fst (run_script e url desc w) = Returned \<and>
    files w (next_file w) = None \<and>
    files (snd (run_script e url desc w)) =
      (files w)(next_file w \<mapsto> PS_OVERRIDE @ [10] @ resp_text r) \<and>
    procs (snd (run_script e url desc w)) =
      procs w @
      [\<lparr>argv = [str ''powershell.exe'', str ''-NoProfile'', str ''-ExecutionPolicy'',
                str ''Bypass'', str ''-File'', tmp_name (next_file w)],
        p_stdin = PIPE, p_stdout = PIPE, p_stderr = STDOUT,
        text_mode = True, returncode = None, stdin_buffer = [],
        stdin_pipe = [], stdin_broken = None,
        stdin_encode_error = locale_encode_error e,
        stdout_pipe = [], stdout_undecodable = None\<rparr>] \<and>
    current_proc (snd (run_script e url desc w)) = Some (length (procs w))"
proof -
  have "cleanup_inv w" unfolding w by (rule cleanup_inv_run [OF cleanup_inv_initial])
  then have "files w (next_file w) = None"
    by (auto simp: cleanup_inv_def)
  then show ?thesis
    by (simp add: run_script_launch [OF ok])
qed

theorem start_writes_shim_and_launches_witness:
  "initial = run [] initial \<and>
   http_get ok_env [117] =
     Inr \<lparr>status_code = 200, reason = str ''OK'', resp_url = [117],
          resp_text = str ''Write-Output 1''\<rparr> \<and>
   raise_for_status \<lparr>status_code = 200, reason = str ''OK'', resp_url = [117],
          resp_text = str ''Write-Output 1''\<rparr> = Inr () \<and>
   mkstemp_error ok_env = None \<and> write_error ok_env = None \<and> popen_error ok_env = None \<and>
   files (snd (run_script ok_env [117] [100] initial)) =
     [0 \<mapsto> PS_OVERRIDE @ [10] @ str ''Write-Output 1''] \<and>
   map argv (procs (snd (run_script ok_env [117] [100] initial))) =
     [[str ''powershell.exe'', str ''-NoProfile'', str ''-ExecutionPolicy'',
       str ''Bypass'', str ''-File'', tmp_name 0]] \<and>
   current_proc (snd (run_script ok_env [117] [100] initial)) = Some 0"
proof -
  have w: "initial = run [] initial" by simp
  have ok: "http_get ok_env [117] =
       Inr \<lparr>status_code = 200, reason = str ''OK'', resp_url = [117],
            resp_text = str ''Write-Output 1''\<rparr>"
    "raise_for_status \<lparr>status_code = 200, reason = str ''OK'', resp_url = [117],
            resp_text = str ''Write-Output 1''\<rparr> = Inr ()"
    "mkstemp_error ok_env = None" "write_error ok_env = None" "popen_error ok_env = None"
    by (simp_all add: ok_env_def raise_for_status_def)
  from start_writes_shim_and_launches [OF w ok, of "[100]"] ok show ?thesis
    by (simp add: initial_def)
qed

text \<open>
  C1, as the code has it: \<open>run_script\<close> does not look at \<open>current_proc\<close> before it
  starts a script; what keeps a second start away is that every script button is
  disabled while a script runs. Called all the same while a session is active, with
  nothing failing, it returns normally, leaves every script button disabled, writes a
  new temporary file, starts a new process and makes it \<open>current_proc\<close>; the process
  of the first session is left as it was and goes on running.
\<close>

theorem second_start_launches:
  assumes cur: "current_proc w = Some p" and p: "p < length (procs w)"
    and alive: "poll w p = None"
    and ok: "http_get e url = Inr r" "raise_for_status r = Inr ()"
      "mkstemp_error e = None" "write_error e = None" "popen_error e = None"
  shows "fst (run_script e url desc w) = Returned \<and>
    script_buttons (snd (run_script e url desc w)) = replicate (length (script_buttons w)) Disabled \<and>
    length (procs (snd (run_script e url desc w))) = Suc (length (procs w)) \<and>
    current_proc (snd (run_script e url desc w)) = Some (length (procs w)) \<and>
    poll (snd (run_script e url desc w)) (length (procs w)) = None \<and>
    files (snd (run_script e url desc w)) =
      (files w)(next_file w \<mapsto> PS_OVERRIDE @ [10] @ resp_text r) \<and>
    procs (snd (run_script e url desc w)) ! p = procs w ! p \<and>
    poll (snd (run_script e url desc w)) p = None"
  using cur p alive
  by (simp add: run_script_launch [OF ok] poll_def nth_append map_replicate_const)

theorem second_start_launches_witness:
  "current_proc started = Some 0 \<and> 0 < length (procs started) \<and> poll started 0 = None \<and>
   fst (run_script ok_env [117] [100] started) = Returned \<and>
   length (procs (snd (run_script ok_env [117] [100] started))) = 2 \<and>
   current_proc (snd (run_script ok_env [117] [100] started)) = Some 1 \<and>
   procs (snd (run_script ok_env [117] [100] started)) ! 0 = procs started ! 0"
proof -
  have cur: "current_proc started = Some 0" and p: "0 < length (procs started)"
    and alive: "poll started 0 = None"
    by (simp_all add: started_fields poll_def)
  have ok: "http_get ok_env [117] =
       Inr \<lparr>status_code = 200, reason = str ''OK'', resp_url = [117],
            resp_text = str ''Write-Output 1''\<rparr>"
    "raise_for_status \<lparr>status_code = 200, reason = str ''OK'', resp_url = [117],
            resp_text = str ''Write-Output 1''\<rparr> = Inr ()"
    "mkstemp_error ok_env = None" "write_error ok_env = None" "popen_error ok_env = None"
    by (simp_all add: ok_env_def raise_for_status_def)
  from second_start_launches [OF cur p alive ok, of "[100]"] cur p alive show ?thesis
    by (simp add: started_fields)
qed

text \<open>
  C1 as stated fails: a session is active, and a second call of \<open>run_script\<close> is not
  rejected. It returns normally, there are two processes and two temporary files
  afterwards, and \<open>current_proc\<close> is the second process.
\<close>

theorem second_start_not_rejected:
  "session_active started \<and>
   fst (run_script ok_env [117] [100] started) = Returned \<and>
   length (procs started) = 1 \<and>
   length (procs (snd (run_script ok_env [117] [100] started))) = 2 \<and>
   dom (files started) = {0} \<and>
   dom (files (snd (run_script ok_env [117] [100] started))) = {0, 1} \<and>
   current_proc (snd (run_script ok_env [117] [100] started)) = Some 1"
  by (auto simp: started_def session_active_def ok_env_def initial_def model_defs)

subsection \<open>Forwarding the output\<close>

lemma shown_Cons: "shown (l # ls) = rstrip l @ [10] @ shown ls"
  by (simp add: shown_def)

lemma rstrip_parts: "s = rstrip s @ rev (takeWhile isspace (rev s))"
proof -
  have "rev (dropWhile isspace (rev s)) @ rev (takeWhile isspace (rev s)) =
        rev (takeWhile isspace (rev s) @ dropWhile isspace (rev s))"
    by (simp only: rev_append)
  also have "\<dots> = rev (rev s)"
    by (simp only: takeWhile_dropWhile_id)
  finally show ?thesis by (simp add: rstrip_def)
qed

lemma rstrip_last: "rstrip s \<noteq> [] \<Longrightarrow> \<not> isspace (last (rstrip s))"
  by (simp add: rstrip_def last_rev hd_dropWhile)

lemma spaced_fields:
  "threads spaced = [\<lparr>r_pc = In_loop 0, r_tmp = 0\<rparr>]"
  "stdout_undecodable (procs spaced ! 0) = None"
  "stdout_pipe (procs spaced ! 0) = [[97, 32, 10]]"
  by (simp_all add: spaced_def reading_def ok_env_def initial_def model_defs)

text \<open>
  C8, as the code has it: a step of a reader thread whose iteration yields a line (the
  output decodes and the pipe holds the line) adds to the console the line without its
  trailing whitespace, and a newline. What is cut
  off is whitespace only (spaces and tabs before the line terminator go with it), what
  is shown is the rest of the line, unchanged, and it does not end in whitespace.
\<close>

theorem reader_forwards_rstripped:
  assumes "t < length (threads w)" "r_pc (threads w ! t) = In_loop p"
    "stdout_undecodable (procs w ! p) = None"
    "stdout_pipe (procs w ! p) = line # rest"
  shows "tw_text (output_box (reader_step t w)) = tw_text (output_box w) @ rstrip line @ [10] \<and>
    (\<exists>ws. line = rstrip line @ ws \<and> list_all isspace ws) \<and>
    (if rstrip line = [] then list_all isspace line else \<not> isspace (last (rstrip line)))"
proof -
  have "list_all isspace (rev (takeWhile isspace (rev line)))"
    by (simp add: list_all_iff) (meson set_takeWhileD)
  with rstrip_parts [of line]
  have cut: "\<exists>ws. line = rstrip line @ ws \<and> list_all isspace ws" by blast
  then have "list_all isspace line" if "rstrip line = []"
    using that by auto
  with cut assms show ?thesis
    by (simp add: reader_step_def forward_line_def rstrip_last)
qed

theorem reader_forwards_rstripped_witness:
  "0 < length (threads spaced) \<and> r_pc (threads spaced ! 0) = In_loop 0 \<and>
   stdout_undecodable (procs spaced ! 0) = None \<and>
   stdout_pipe (procs spaced ! 0) = [97, 32, 10] # [] \<and>
   tw_text (output_box (reader_step 0 spaced)) = tw_text (output_box spaced) @ [97, 10]"
proof -
  have h: "0 < length (threads spaced)" "r_pc (threads spaced ! 0) = In_loop 0"
    "stdout_undecodable (procs spaced ! 0) = None"
    "stdout_pipe (procs spaced ! 0) = [97, 32, 10] # []"
    by (simp_all add: spaced_fields)
  have "rstrip [97, 32, 10] = [97]"
    by (simp add: rstrip_def isspace_def)
  with reader_forwards_rstripped [OF h] h show ?thesis by simp
qed

text \<open>
  C8 as stated fails: the process writes the letter \<open>a\<close>, a space and the line
  terminator; the console gains the letter \<open>a\<close> and a newline, without the space.
\<close>

theorem trailing_space_lost:
  "stdout_pipe (procs spaced ! 0) = [[97, 32, 10]] \<and>
   tw_text (output_box (reader_step 0 spaced)) = tw_text (output_box spaced) @ [97, 10] \<and>
   tw_text (output_box (reader_step 0 spaced)) \<noteq> tw_text (output_box spaced) @ [97, 32, 10]"
  by (simp add: spaced_fields reader_step_def forward_line_def rstrip_def isspace_def)

text \<open>
  The lines of a process reach the console in the order in which the process wrote
  them, however the writing and the reading interleave. A reader thread that dies in
  its loop forwards no more lines: what it has forwarded is still a beginning of what
  was written.
\<close>

lemma forwarding_order:
  assumes "t < length (threads w)"
    "r_pc (threads w ! t) = In_loop p \<or> (\<exists>m. r_pc (threads w ! t) = Died m)"
    "p < length (procs w)" "returncode (procs w ! p) = None"
    "list_all (stream_event p t) evs"
  shows "\<exists>k. tw_text (output_box (run evs w)) =
           tw_text (output_box w) @
           shown (take k (stdout_pipe (procs w ! p) @ lines_written p evs)) \<and>
         stdout_pipe (procs (run evs w) ! p) =
           drop k (stdout_pipe (procs w ! p) @ lines_written p evs)"
  using assms
proof (induction evs arbitrary: w)
  case Nil
  show ?case by (rule exI [of _ 0]) (simp add: shown_def)
next
  case (Cons ev evs)
  from Cons.prems(5) have ev: "stream_event p t ev" and evs: "list_all (stream_event p t) evs"
    by simp_all
  from ev consider (writes) line where "ev = Proc_writes p line" | (reads) "ev = Reader_runs t"
    by (cases ev) auto
  then show ?case
  proof cases
    case writes
    let ?w1 = "proc_writes p line w"
    have w1: "threads ?w1 = threads w" "output_box ?w1 = output_box w"
      "length (procs ?w1) = length (procs w)" "returncode (procs ?w1 ! p) = None"
      "stdout_pipe (procs ?w1 ! p) = stdout_pipe (procs w ! p) @ [line]"
      using Cons.prems(3,4) by (simp_all add: proc_writes_def)
    from Cons.IH [of ?w1] Cons.prems(1,2,3) evs w1
    obtain k where "tw_text (output_box (run evs ?w1)) =
        tw_text (output_box ?w1) @
        shown (take k (stdout_pipe (procs ?w1 ! p) @ lines_written p evs))"
      "stdout_pipe (procs (run evs ?w1) ! p) =
        drop k (stdout_pipe (procs ?w1 ! p) @ lines_written p evs)"
      by auto
    with w1 writes show ?thesis by auto
  next
    case reads
    let ?w1 = "reader_step t w"
    have "?w1 = w \<or> (\<exists>m. ?w1 = set_pc t (Died m) w) \<or>
      (\<exists>line rest. r_pc (threads w ! t) = In_loop p \<and>
         stdout_undecodable (procs w ! p) = None \<and> stdout_pipe (procs w ! p) = line # rest)"
    proof (cases "r_pc (threads w ! t) = In_loop p")
      case False
      with Cons.prems(1,2) show ?thesis
        by (auto simp: reader_step_def)
    next
      case loop: True
      show ?thesis
      proof (cases "stdout_undecodable (procs w ! p)")
        case (Some m)
        with loop Cons.prems(1) have "?w1 = set_pc t (Died m) w"
          by (simp add: reader_step_def)
        then show ?thesis by blast
      next
        case None
        with loop Cons.prems(1,4) show ?thesis
          by (cases "stdout_pipe (procs w ! p)") (simp_all add: reader_step_def)
      qed
    qed
    then consider (idle) "?w1 = w"
      | (dies) m where "?w1 = set_pc t (Died m) w"
      | (forwards) line rest where "r_pc (threads w ! t) = In_loop p"
          "stdout_undecodable (procs w ! p) = None" "stdout_pipe (procs w ! p) = line # rest"
      by blast
    then show ?thesis
    proof cases
      case idle
      with Cons.IH [of w] Cons.prems(1-4) evs reads show ?thesis by simp
    next
      case dies
      have w1: "t < length (threads ?w1)" "\<exists>m'. r_pc (threads ?w1 ! t) = Died m'"
        "procs ?w1 = procs w" "output_box ?w1 = output_box w"
        using Cons.prems(1) by (simp_all add: dies set_pc_def)
      from Cons.IH [of ?w1] w1 Cons.prems(3,4) evs
      obtain k where "tw_text (output_box (run evs ?w1)) =
          tw_text (output_box ?w1) @
          shown (take k (stdout_pipe (procs ?w1 ! p) @ lines_written p evs))"
        "stdout_pipe (procs (run evs ?w1) ! p) =
          drop k (stdout_pipe (procs ?w1 ! p) @ lines_written p evs)"
        by auto
      with w1 reads show ?thesis by auto
    next
      case forwards
      have w1: "threads ?w1 = threads w"
        "tw_text (output_box ?w1) = tw_text (output_box w) @ rstrip line @ [10]"
        "length (procs ?w1) = length (procs w)" "returncode (procs ?w1 ! p) = None"
        "stdout_pipe (procs ?w1 ! p) = rest"
        using Cons.prems(1,3,4) forwards by (simp_all add: reader_step_def forward_line_def)
      from Cons.IH [of ?w1] Cons.prems(1,2,3) evs w1
      obtain k where k: "tw_text (output_box (run evs ?w1)) =
          tw_text (output_box ?w1) @ shown (take k (rest @ lines_written p evs))"
        "stdout_pipe (procs (run evs ?w1) ! p) = drop k (rest @ lines_written p evs)"
        by auto
      have "tw_text (output_box (run (ev # evs) w)) =
          tw_text (output_box w) @
          shown (take (Suc k) (stdout_pipe (procs w ! p) @ lines_written p (ev # evs))) \<and>
        stdout_pipe (procs (run (ev # evs) w) ! p) =
          drop (Suc k) (stdout_pipe (procs w ! p) @ lines_written p (ev # evs))"
        using k w1 reads forwards by (simp add: shown_Cons)
      then show ?thesis by blast
    qed
  qed
qed

lemma abc_shown:
  "tw_text (output_box (run abc_events reading)) =
     tw_text (output_box reading) @ [65, 10, 66, 10, 67, 10]"
  by (simp add: abc_events_def reading_fields reader_step_def forward_line_def proc_writes_def
      rstrip_def isspace_def)

text \<open>
  C3: a reader thread \<open>t\<close> stands in its loop over the output of a running process
  \<open>p\<close>, and the pipe is empty. Then, however the writes of \<open>p\<close> and the steps of
  \<open>t\<close> interleave, the console has gained, one after the other and in the order of
  writing, the first \<open>k\<close> lines that \<open>p\<close> has written (each without its trailing
  whitespace, on a line of its own), and the pipe holds the lines after them, in order.
\<close>

theorem lines_forwarded_in_order:
  assumes "t < length (threads w)" "r_pc (threads w ! t) = In_loop p"
    "p < length (procs w)" "returncode (procs w ! p) = None"
    "stdout_pipe (procs w ! p) = []"
    "list_all (stream_event p t) evs"
  shows "\<exists>k. tw_text (output_box (run evs w)) =
           tw_text (output_box w) @ shown (take k (lines_written p evs)) \<and>
         stdout_pipe (procs (run evs w) ! p) = drop k (lines_written p evs)"
  using forwarding_order [OF assms(1) disjI1 [OF assms(2)] assms(3,4,6)] assms(5) by simp

theorem lines_forwarded_in_order_witness:
  "0 < length (threads reading) \<and> r_pc (threads reading ! 0) = In_loop 0 \<and>
   0 < length (procs reading) \<and> returncode (procs reading ! 0) = None \<and>
   stdout_pipe (procs reading ! 0) = [] \<and> list_all (stream_event 0 0) abc_events \<and>
   lines_written 0 abc_events = [[65, 10], [66, 10], [67, 10]] \<and>
   tw_text (output_box (run abc_events reading)) =
     tw_text (output_box reading) @ [65, 10, 66, 10, 67, 10] \<and>
   (\<exists>k. tw_text (output_box (run abc_events reading)) =
           tw_text (output_box reading) @ shown (take k (lines_written 0 abc_events)) \<and>
         stdout_pipe (procs (run abc_events reading) ! 0) = drop k (lines_written 0 abc_events))"
proof -
  have h: "0 < length (threads reading)" "r_pc (threads reading ! 0) = In_loop 0"
    "0 < length (procs reading)" "returncode (procs reading ! 0) = None"
    "stdout_pipe (procs reading ! 0) = []" "list_all (stream_event 0 0) abc_events"
    by (simp_all add: reading_fields abc_events_def)
  have "lines_written 0 abc_events = [[65, 10], [66, 10], [67, 10]]"
    by (simp add: abc_events_def)
  with lines_forwarded_in_order [OF h] h abc_shown show ?thesis by simp
qed

text \<open>C10: whatever the state of the session, \<open>send_input\<close> leaves the entry field empty.\<close>

theorem send_input_clears_entry: "input_entry (snd (send_input w)) = []"
  by (simp add: send_input_def Let_def)

end
